theory Spec2Isabelle
  imports Main
begin

section \<open>Process helpers of psutil on FreeBSD (psutil/arch/bsd/freebsd.c)\<close>

text \<open>
  The file holds four C functions: \<open>psutil_get_proc_list\<close> (the process enumerator),
  \<open>psutil_get_cmd_args\<close> (the argument fetcher), \<open>psutil_get_cmdline\<close> (the argument
  decoder, which calls the fetcher) and \<open>psutil_pid_exists\<close> (the liveness checker).
  Each is embedded as a HOL function. What the C code gets from outside (the replies of
  \<open>sysctl\<close> and \<open>kill\<close>, whether \<open>malloc\<close> succeeds, whether the Python runtime can
  build an object) is a parameter of the model; what it does to the outside (blocks
  allocated and freed, kernel calls issued, bytes read) is returned with the result.
\<close>

subsection \<open>Constants of the system headers\<close>

text \<open>
  \<open>errno.h\<close> is not part of the repository. The three error numbers the code names
  have the values of FreeBSD's \<open>sys/errno.h\<close>; POSIX requires every error number to be
  positive.
\<close>

definition EPERM :: int where
  "EPERM = 1"

definition ESRCH :: int where
  "ESRCH = 3"

definition ENOMEM :: int where
  "ENOMEM = 12"

text \<open>
  A \<open>long\<close> passed where the prototype wants an \<open>int\<close> (\<open>mib[3] = pid\<close>, the
  \<open>pid_t\<close> parameter of \<open>kill\<close>) is narrowed to 32 bits, two's complement.
\<close>

definition c_int :: "int \<Rightarrow> int" where
  "c_int x = (x + 2147483648) mod 4294967296 - 2147483648"

subsection \<open>The liveness checker: \<open>psutil_pid_exists\<close>\<close>

text \<open>
  \<open>kill(pid, 0)\<close> returns 0 when the signal could be sent, and otherwise returns -1 and
  leaves the error number in \<open>errno\<close>.
\<close>

datatype kill_reply = Kill_ok | Kill_fail int

definition kill_ret :: "kill_reply \<Rightarrow> int" where
  "kill_ret r = (case r of Kill_ok \<Rightarrow> 0 | Kill_fail e \<Rightarrow> - 1)"

text \<open>
  The outcome of a call: the C return value (1 exists, 0 does not exist, -1 error), the
  pids that were probed with \<open>kill\<close>, and the error number of the Python exception that
  \<open>PyErr_SetFromErrno\<close> raised from \<open>errno\<close>, if one was raised.
\<close>

record pid_exists_result =
  pe_ret :: int
  pe_probes :: "int list"
  pe_raised :: "int option"

definition psutil_pid_exists :: "(int \<Rightarrow> kill_reply) \<Rightarrow> int \<Rightarrow> pid_exists_result" where
  "psutil_pid_exists kill pid =
     (if pid < 0 then \<lparr>pe_ret = 0, pe_probes = [], pe_raised = None\<rparr>
      else
        let reply = kill (c_int pid);
            ret = kill_ret reply
        in if ret = 0 then \<lparr>pe_ret = 1, pe_probes = [c_int pid], pe_raised = None\<rparr>
           else if ret = ESRCH then \<lparr>pe_ret = 0, pe_probes = [c_int pid], pe_raised = None\<rparr>
           else if ret = EPERM then \<lparr>pe_ret = 1, pe_probes = [c_int pid], pe_raised = None\<rparr>
           else \<lparr>pe_ret = - 1, pe_probes = [c_int pid],
                  pe_raised = (case reply of Kill_ok \<Rightarrow> None | Kill_fail e \<Rightarrow> Some e)\<rparr>)"

definition no_such_process :: "int \<Rightarrow> kill_reply" where
  "no_such_process p = Kill_fail ESRCH"

definition permission_denied :: "int \<Rightarrow> kill_reply" where
  "permission_denied p = Kill_fail EPERM"

subsection \<open>The process enumerator: \<open>psutil_get_proc_list\<close>\<close>

text \<open>
  A call of \<open>sysctl\<close> either returns 0 or returns -1 with the error number in \<open>errno\<close>;
  in both cases it may have stored a new value through the length pointer (the source's
  comment: the ENOMEM failure sets length to the amount of data returned). The code reads
  a reply with \<open>err = sysctl(...); if (err == -1) err = errno;\<close>.
\<close>

datatype sysctl_reply = Sysctl_ok nat | Sysctl_fail int nat

definition reply_err :: "sysctl_reply \<Rightarrow> int" where
  "reply_err r = (case r of Sysctl_ok n \<Rightarrow> 0 | Sysctl_fail e n \<Rightarrow> e)"

definition reply_len :: "sysctl_reply \<Rightarrow> nat" where
  "reply_len r = (case r of Sysctl_ok n \<Rightarrow> n | Sysctl_fail e n \<Rightarrow> n)"

text \<open>
  The outside world of one call, by iteration of the loop: the reply to the query with a
  NULL buffer, whether \<open>malloc\<close> returns a block, and the reply to the query with that
  block. What the code passes to each call is fixed by the earlier replies, so indexing
  the replies by iteration loses nothing.
\<close>

record kernel =
  size_reply :: "nat \<Rightarrow> sysctl_reply"
  malloc_ok :: "nat \<Rightarrow> bool"
  fill_reply :: "nat \<Rightarrow> sysctl_reply"

text \<open>
  The local variables of the function (\<open>done\<close> and \<open>length\<close> carry a suffix), the set of
  blocks that are allocated and not yet freed, and the number of the current iteration.
  A pointer is \<open>None\<close> (NULL) or the block it points to; the block allocated in
  iteration \<open>i\<close> is block \<open>i\<close>.
\<close>

record pl_state =
  err :: int
  result :: "nat option"
  done_v :: bool
  length_v :: nat
  heap :: "nat set"
  iter :: nat

definition free_block :: "nat option \<Rightarrow> nat set \<Rightarrow> nat set" where
  "free_block p h = (case p of None \<Rightarrow> h | Some b \<Rightarrow> h - {b})"

text \<open>The body of the \<open>do ... while\<close> loop, statement by statement.\<close>

definition loop_body :: "kernel \<Rightarrow> pl_state \<Rightarrow> pl_state" where
  "loop_body k s0 =
     (let i = iter s0;
          s1 = s0\<lparr>length_v := 0\<rparr>;
          s2 = s1\<lparr>err := reply_err (size_reply k i), length_v := reply_len (size_reply k i)\<rparr>;
          s3 = (if err s2 = 0
                then (if malloc_ok k i
                      then s2\<lparr>result := Some i, heap := insert i (heap s2)\<rparr>
                      else s2\<lparr>result := None, err := ENOMEM\<rparr>)
                else s2);
          s4 = (if err s3 = 0
                then (let s = s3\<lparr>err := reply_err (fill_reply k i),
                                  length_v := reply_len (fill_reply k i)\<rparr>
                      in if err s = 0 then s\<lparr>done_v := True\<rparr>
                         else if err s = ENOMEM
                         then s\<lparr>heap := free_block (result s) (heap s), result := None, err := 0\<rparr>
                         else s)
                else s3)
      in s4)"

text \<open>
  The loop runs while \<open>err == 0 && !done\<close>. Nothing bounds the number of iterations, so
  the model takes fuel: \<open>None\<close> says that the loop was still running when the fuel ran out.
\<close>

fun sysctl_loop :: "nat \<Rightarrow> kernel \<Rightarrow> pl_state \<Rightarrow> pl_state option" where
  "sysctl_loop 0 k s = None"
| "sysctl_loop (Suc fuel) k s =
     (let s' = loop_body k s
      in if err s' = 0 \<and> \<not> done_v s' then sysctl_loop fuel k (s'\<lparr>iter := Suc (iter s')\<rparr>)
         else Some s')"

text \<open>
  On entry \<open>result\<close> is NULL and \<open>done\<close> is 0; \<open>err\<close> and \<open>length\<close> are not initialised,
  and the body assigns both before it reads them. The assertions of the source are not
  statements of the model. The three on entry bind the caller. The other two (\<open>result\<close>
  is NULL at the head of the loop; on return \<open>err\<close> is 0 exactly when \<open>*procList\<close> is
  not NULL) are proved of the model below, so they never fire.
\<close>

definition entry_state :: pl_state where
  "entry_state = \<lparr>err = 0, result = None, done_v = False, length_v = 0, heap = {}, iter = 0\<rparr>"

definition cleanup :: "pl_state \<Rightarrow> pl_state" where
  "cleanup s =
     (if err s \<noteq> 0 \<and> result s \<noteq> None
      then s\<lparr>heap := free_block (result s) (heap s), result := None\<rparr>
      else s)"

text \<open>
  What the caller gets: the return value, \<open>*procList\<close>, \<open>*procCount\<close>, the blocks still
  allocated, and the number of the iteration the loop ended in. \<open>recsz\<close> is
  \<open>sizeof(struct kinfo_proc)\<close>, which \<open>sys/user.h\<close> fixes and the repository does not.
\<close>

record proc_list_result =
  ret :: int
  procList :: "nat option"
  procCount :: nat
  heap_after :: "nat set"
  last_iter :: nat

definition epilogue :: "nat \<Rightarrow> pl_state \<Rightarrow> proc_list_result" where
  "epilogue recsz s =
     (let s' = cleanup s
      in \<lparr>ret = err s', procList = result s', procCount = length_v s' div recsz,
          heap_after = heap s', last_iter = iter s'\<rparr>)"

definition psutil_get_proc_list :: "nat \<Rightarrow> kernel \<Rightarrow> nat \<Rightarrow> proc_list_result option" where
  "psutil_get_proc_list fuel k recsz = map_option (epilogue recsz) (sysctl_loop fuel k entry_state)"

text \<open>
  Three conditions on the replies of iteration \<open>i\<close>. \<open>retry_cond\<close>: the values the code
  tests when it goes round again. \<open>requery_enomem\<close>: the size query succeeds, the block
  is allocated, and the query with the block fails with ENOMEM. \<open>errno_set\<close>: a failed
  call left a non-zero error number, as every system call does. \<open>stop_code\<close> is the raw
  error code of an iteration (0 when both queries succeed), and \<open>final_length\<close> the value
  the last call of the iteration that was made left in \<open>length\<close>.
\<close>

definition retry_cond :: "kernel \<Rightarrow> nat \<Rightarrow> bool" where
  "retry_cond k i \<longleftrightarrow>
     reply_err (size_reply k i) = 0 \<and> malloc_ok k i \<and> reply_err (fill_reply k i) = ENOMEM"

definition requery_enomem :: "kernel \<Rightarrow> nat \<Rightarrow> bool" where
  "requery_enomem k i =
     (case size_reply k i of
        Sysctl_fail e n \<Rightarrow> False
      | Sysctl_ok L \<Rightarrow>
          malloc_ok k i \<and>
          (case fill_reply k i of Sysctl_ok n \<Rightarrow> False | Sysctl_fail e n \<Rightarrow> e = ENOMEM))"

definition errno_set :: "sysctl_reply \<Rightarrow> bool" where
  "errno_set r = (case r of Sysctl_ok n \<Rightarrow> True | Sysctl_fail e n \<Rightarrow> e \<noteq> 0)"

definition stop_code :: "kernel \<Rightarrow> nat \<Rightarrow> int" where
  "stop_code k i =
     (if reply_err (size_reply k i) \<noteq> 0 then reply_err (size_reply k i)
      else if \<not> malloc_ok k i then ENOMEM
      else reply_err (fill_reply k i))"

definition final_length :: "kernel \<Rightarrow> nat \<Rightarrow> nat" where
  "final_length k i =
     (if reply_err (size_reply k i) \<noteq> 0 \<or> \<not> malloc_ok k i then reply_len (size_reply k i)
      else reply_len (fill_reply k i))"

text \<open>The state at the head of every iteration: no block held, none allocated, not done.\<close>

definition at_head :: "pl_state \<Rightarrow> bool" where
  "at_head s \<longleftrightarrow> result s = None \<and> \<not> done_v s \<and> heap s = {}"

text \<open>
  Four scripted kernels, with records of 1088 bytes (the size of \<open>struct kinfo_proc\<close> on
  FreeBSD/amd64). \<open>grown_kernel\<close>: the table grows between the two queries of the first
  iteration, the second iteration succeeds. \<open>fatal_kernel\<close>: the same, but the second
  iteration's query with the block fails with EPERM. \<open>shrunk_kernel\<close>: the query with
  the block writes fewer bytes than the size query announced. \<open>corrupt_kernel\<close>: the
  kernel reports a byte count that is not a multiple of the record size.
\<close>

definition grown_kernel :: kernel where
  "grown_kernel =
     \<lparr>size_reply = (\<lambda>i. if i = 0 then Sysctl_ok 2176 else Sysctl_ok 3264),
      malloc_ok = (\<lambda>i. True),
      fill_reply = (\<lambda>i. if i = 0 then Sysctl_fail ENOMEM 2176 else Sysctl_ok 3264)\<rparr>"

definition fatal_kernel :: kernel where
  "fatal_kernel =
     \<lparr>size_reply = (\<lambda>i. if i = 0 then Sysctl_ok 2176 else Sysctl_ok 3264),
      malloc_ok = (\<lambda>i. True),
      fill_reply = (\<lambda>i. if i = 0 then Sysctl_fail ENOMEM 2176 else Sysctl_fail EPERM 0)\<rparr>"

definition shrunk_kernel :: kernel where
  "shrunk_kernel =
     \<lparr>size_reply = (\<lambda>i. Sysctl_ok 3264), malloc_ok = (\<lambda>i. True),
      fill_reply = (\<lambda>i. Sysctl_ok 2176)\<rparr>"

definition corrupt_kernel :: kernel where
  "corrupt_kernel =
     \<lparr>size_reply = (\<lambda>i. Sysctl_ok 2177), malloc_ok = (\<lambda>i. True),
      fill_reply = (\<lambda>i. Sysctl_ok 2177)\<rparr>"

subsection \<open>The argument fetcher: \<open>psutil_get_cmd_args\<close>\<close>

text \<open>
  The fetcher makes two kernel queries: \<open>KERN_ARGMAX\<close>, which stores an \<open>int\<close>, and
  \<open>KERN_PROC_ARGS\<close> for a pid, which fills the block it is given and stores the number of
  bytes written. A successful reply to the second carries the contents of the whole
  allocated block after the call (the bytes written, then whatever the block held) and
  the stored length. What the function does to the outside is kept as a list of events.
\<close>

datatype argmax_reply = Argmax_ok int | Argmax_fail int

datatype args_reply = Args_ok "char list" nat | Args_fail int

record args_kernel =
  argmax_reply :: argmax_reply
  procargs_malloc_ok :: bool
  args_reply :: "int \<Rightarrow> args_reply"

datatype event = Ev_sysctl_argmax | Ev_malloc int | Ev_sysctl_args int | Ev_free

text \<open>
  The result: the pointer returned (NULL, or the block, given by its contents), the
  caller's \<open>*argsize\<close> after the call, the events, and whether \<open>PyErr_NoMemory\<close> was
  called. \<open>argsize0\<close> is what \<open>*argsize\<close> held before the call.
\<close>

record cmd_args_result =
  procargs :: "char list option"
  argsize :: nat
  ca_events :: "event list"
  ca_nomem :: bool

definition psutil_get_cmd_args :: "args_kernel \<Rightarrow> int \<Rightarrow> nat \<Rightarrow> cmd_args_result" where
  "psutil_get_cmd_args k pid argsize0 =
     (case argmax_reply k of
        Argmax_fail e \<Rightarrow>
          \<lparr>procargs = None, argsize = argsize0, ca_events = [Ev_sysctl_argmax], ca_nomem = False\<rparr>
      | Argmax_ok argmax \<Rightarrow>
          if \<not> procargs_malloc_ok k
          then \<lparr>procargs = None, argsize = argsize0,
                ca_events = [Ev_sysctl_argmax, Ev_malloc argmax], ca_nomem = True\<rparr>
          else
            (case args_reply k (c_int pid) of
               Args_fail e \<Rightarrow>
                 \<lparr>procargs = None, argsize = argsize0,
                  ca_events = [Ev_sysctl_argmax, Ev_malloc argmax, Ev_sysctl_args (c_int pid), Ev_free],
                  ca_nomem = False\<rparr>
             | Args_ok mem size_v \<Rightarrow>
                 \<lparr>procargs = Some mem, argsize = size_v,
                  ca_events = [Ev_sysctl_argmax, Ev_malloc argmax, Ev_sysctl_args (c_int pid)],
                  ca_nomem = False\<rparr>))"

text \<open>The number of blocks that a list of events leaves allocated.\<close>

definition blocks_live :: "event list \<Rightarrow> nat" where
  "blocks_live es = length (filter (\<lambda>e. case e of Ev_malloc n \<Rightarrow> True | _ \<Rightarrow> False) es)
                    - length (filter (\<lambda>e. e = Ev_free) es)"

subsection \<open>The argument decoder: \<open>psutil_get_cmdline\<close>\<close>

text \<open>
  Bytes are \<open>char\<close>s. \<open>Py_BuildValue("s", &argstr[pos])\<close> and \<open>strlen(&argstr[pos])\<close>
  read a C string: the bytes from the position up to the first null byte. \<open>c_string\<close>
  reads it from the rest of the block; \<open>None\<close> says that the block ended before a null
  byte was found, where the C code reads on outside the block.
\<close>

definition NUL :: char where
  "NUL = CHR 0x00"

fun c_string :: "char list \<Rightarrow> char list option" where
  "c_string [] = None"
| "c_string (c # cs) = (if c = NUL then Some [] else map_option ((#) c) (c_string cs))"

text \<open>
  The Python runtime decides whether \<open>Py_BuildValue("s", ...)\<close> returns an object for a
  C string and whether \<open>PyList_Append\<close> returns 0. A string object is given by the bytes
  it was built from, a list object by the list of its items. \<open>Py_BuildValue("[]")\<close>, whose
  result the code does not test, is taken to return the empty list.
\<close>

record pyhost =
  build_ok :: "char list \<Rightarrow> bool"
  append_ok :: "char list list \<Rightarrow> char list \<Rightarrow> bool"

text \<open>
  The \<open>while\<close> loop. It ends with the list built, at the label \<open>error\<close>, or in a read
  outside the block (\<open>Scan_fault\<close>; the C code has no defined behaviour from there on).
  Beside the outcome it returns the offsets of the bytes read, in order: an iteration
  at \<open>pos\<close> that finds a string of length \<open>n\<close> reads the offsets \<open>pos\<close> to \<open>pos + n\<close>, the
  last being the null byte. \<open>pos\<close> is a C \<open>int\<close>; it never exceeds the size of the block,
  which is the \<open>int\<close> \<open>argmax\<close>, so the model counts in natural numbers.
\<close>

datatype scan_outcome = Scan_done "char list list" | Scan_error | Scan_fault

function scan ::
  "pyhost \<Rightarrow> char list \<Rightarrow> nat \<Rightarrow> nat \<Rightarrow> char list list \<Rightarrow> nat list \<Rightarrow> scan_outcome \<times> nat list" where
  "scan h mem asize pos py_retlist reads =
     (if pos < asize then
        (case c_string (drop pos mem) of
           None \<Rightarrow> (Scan_fault, reads @ [pos ..< Suc (length mem)])
         | Some s \<Rightarrow>
             if \<not> build_ok h s then (Scan_error, reads @ [pos ..< pos + length s + 1])
             else if \<not> append_ok h py_retlist s
             then (Scan_error, reads @ [pos ..< pos + length s + 1])
             else scan h mem asize (pos + length s + 1) (py_retlist @ [s])
                    (reads @ [pos ..< pos + length s + 1]))
      else (Scan_done py_retlist, reads))"
  by pat_completeness auto
termination
  by (relation "measure (\<lambda>(h, mem, asize, pos, py_retlist, reads). asize - pos)") auto

declare scan.simps [simp del]

text \<open>Lines 186 to 196: the loop under its guard \<open>argsize > 0\<close>, from position 0.\<close>

definition decode_args :: "pyhost \<Rightarrow> char list \<Rightarrow> nat \<Rightarrow> scan_outcome \<times> nat list" where
  "decode_args h mem asize = (if asize > 0 then scan h mem asize 0 [] [] else (Scan_done [], []))"

text \<open>
  The whole function. Its value is the list, NULL, or nothing defined after a read
  outside the block.
\<close>

datatype cmdline_value = Py_list "char list list" | Py_NULL | Undefined_behaviour

record cmdline_result =
  cl_value :: cmdline_value
  cl_events :: "event list"
  cl_reads :: "nat list"

definition psutil_get_cmdline :: "args_kernel \<Rightarrow> pyhost \<Rightarrow> int \<Rightarrow> cmdline_result" where
  "psutil_get_cmdline k h pid =
     (if pid < 0 then \<lparr>cl_value = Py_list [], cl_events = [], cl_reads = []\<rparr>
      else
        let f = psutil_get_cmd_args k pid 0
        in case procargs f of
             None \<Rightarrow> \<lparr>cl_value = Py_NULL, cl_events = ca_events f, cl_reads = []\<rparr>
           | Some argstr \<Rightarrow>
               (case decode_args h argstr (argsize f) of
                  (Scan_done l, rd) \<Rightarrow>
                    \<lparr>cl_value = Py_list l, cl_events = ca_events f @ [Ev_free], cl_reads = rd\<rparr>
                | (Scan_error, rd) \<Rightarrow>
                    \<lparr>cl_value = Py_NULL, cl_events = ca_events f @ [Ev_free], cl_reads = rd\<rparr>
                | (Scan_fault, rd) \<Rightarrow>
                    \<lparr>cl_value = Undefined_behaviour, cl_events = ca_events f, cl_reads = rd\<rparr>))"

text \<open>
  The blob of a list of arguments as the kernel lays it out: each string followed by a
  null byte, back to back. For a list that is not empty this is the strings joined with
  null separators, and a trailing null (\<open>join_nul\<close>); the empty list has the empty blob.
\<close>

definition encode_blob :: "char list list \<Rightarrow> char list" where
  "encode_blob S = concat (map (\<lambda>s. s @ [NUL]) S)"


text \<open>A runtime that never fails.\<close>

definition ok_host :: pyhost where
  "ok_host = \<lparr>build_ok = (\<lambda>s. True), append_ok = (\<lambda>l s. True)\<rparr>"



definition args_of :: "char list \<Rightarrow> nat \<Rightarrow> args_kernel" where
  "args_of mem n =
     \<lparr>argmax_reply = Argmax_ok 262144, procargs_malloc_ok = True,
      args_reply = (\<lambda>p. Args_ok mem n)\<rparr>"

definition args_denied :: "int \<Rightarrow> args_kernel" where
  "args_denied e =
     \<lparr>argmax_reply = Argmax_ok 262144, procargs_malloc_ok = True,
      args_reply = (\<lambda>p. Args_fail e)\<rparr>"

section \<open>Properties\<close>

subsection \<open>Liveness checker\<close>

lemma pid_exists_negative:
  "pid < 0 \<Longrightarrow> psutil_pid_exists kill pid = \<lparr>pe_ret = 0, pe_probes = [], pe_raised = None\<rparr>"
  by (simp add: psutil_pid_exists_def)

lemma pid_exists_probe_ok:
  "0 \<le> pid \<Longrightarrow> kill (c_int pid) = Kill_ok \<Longrightarrow>
   psutil_pid_exists kill pid = \<lparr>pe_ret = 1, pe_probes = [c_int pid], pe_raised = None\<rparr>"
  by (simp add: psutil_pid_exists_def kill_ret_def)

lemma pid_exists_probe_fail:
  "0 \<le> pid \<Longrightarrow> kill (c_int pid) = Kill_fail e \<Longrightarrow>
   psutil_pid_exists kill pid = \<lparr>pe_ret = - 1, pe_probes = [c_int pid], pe_raised = Some e\<rparr>"
  by (simp add: psutil_pid_exists_def kill_ret_def ESRCH_def EPERM_def)

text \<open>
  Claim C1. The claim: for a pid that is not negative, a probe that fails with ESRCH
  gives "dead" (0) and one that fails with EPERM gives "alive" (1). The code compares the
  return value of \<open>kill\<close>, which is -1 on every failure, with ESRCH and EPERM instead of
  comparing \<open>errno\<close>; so both failures end in the error branch: for a pid 99999 that
  no process has, and for pid 1 probed without the right to signal it, the function
  returns -1 and raises the exception for the error number.
\<close>

theorem pid_exists_errno_never_matched:
  "psutil_pid_exists no_such_process 99999 =
     \<lparr>pe_ret = - 1, pe_probes = [99999], pe_raised = Some ESRCH\<rparr>
   \<and> psutil_pid_exists permission_denied 1 =
     \<lparr>pe_ret = - 1, pe_probes = [1], pe_raised = Some EPERM\<rparr>"
  by (simp add: psutil_pid_exists_def kill_ret_def no_such_process_def permission_denied_def
      ESRCH_def EPERM_def c_int_def)

subsection \<open>Process enumerator\<close>

lemma body_ignores_err_length:
  "loop_body k (s\<lparr>err := a, length_v := b\<rparr>) = loop_body k s"
  by (simp add: loop_body_def Let_def)

lemma body_retry:
  "at_head s \<Longrightarrow> retry_cond k (iter s) \<Longrightarrow>
   loop_body k s = s\<lparr>err := 0, length_v := reply_len (fill_reply k (iter s))\<rparr>"
  by (simp add: loop_body_def Let_def at_head_def retry_cond_def free_block_def ENOMEM_def)

lemma body_stop_size:
  "at_head s \<Longrightarrow> reply_err (size_reply k (iter s)) \<noteq> 0 \<Longrightarrow>
   loop_body k s = s\<lparr>err := reply_err (size_reply k (iter s)),
                     length_v := reply_len (size_reply k (iter s))\<rparr>"
  by (simp add: loop_body_def Let_def)

lemma body_stop_malloc:
  "at_head s \<Longrightarrow> reply_err (size_reply k (iter s)) = 0 \<Longrightarrow> \<not> malloc_ok k (iter s) \<Longrightarrow>
   loop_body k s = s\<lparr>err := ENOMEM, length_v := reply_len (size_reply k (iter s))\<rparr>"
  by (simp add: loop_body_def Let_def ENOMEM_def at_head_def)

lemma body_stop_done:
  "at_head s \<Longrightarrow> reply_err (size_reply k (iter s)) = 0 \<Longrightarrow> malloc_ok k (iter s) \<Longrightarrow>
   reply_err (fill_reply k (iter s)) = 0 \<Longrightarrow>
   loop_body k s = s\<lparr>err := 0, length_v := reply_len (fill_reply k (iter s)),
                     result := Some (iter s), heap := {iter s}, done_v := True\<rparr>"
  by (simp add: loop_body_def Let_def at_head_def)

lemma body_stop_fill:
  "at_head s \<Longrightarrow> reply_err (size_reply k (iter s)) = 0 \<Longrightarrow> malloc_ok k (iter s) \<Longrightarrow>
   reply_err (fill_reply k (iter s)) \<noteq> 0 \<Longrightarrow> reply_err (fill_reply k (iter s)) \<noteq> ENOMEM \<Longrightarrow>
   loop_body k s = s\<lparr>err := reply_err (fill_reply k (iter s)),
                     length_v := reply_len (fill_reply k (iter s)),
                     result := Some (iter s), heap := {iter s}\<rparr>"
  by (simp add: loop_body_def Let_def at_head_def)

lemma body_continues_iff:
  "at_head s \<Longrightarrow>
   (err (loop_body k s) = 0 \<and> \<not> done_v (loop_body k s)) \<longleftrightarrow> retry_cond k (iter s)"
  by (auto simp add: loop_body_def Let_def at_head_def retry_cond_def ENOMEM_def)

lemma body_stop_err:
  "at_head s \<Longrightarrow> \<not> retry_cond k (iter s) \<Longrightarrow> err (loop_body k s) = stop_code k (iter s)"
  by (auto simp add: loop_body_def Let_def at_head_def retry_cond_def stop_code_def ENOMEM_def)

lemma body_iter: "iter (loop_body k s) = iter s"
  by (simp add: loop_body_def Let_def)

lemma head_after_retry:
  "at_head s \<Longrightarrow> at_head (s\<lparr>err := a, length_v := b, iter := j\<rparr>)"
  by (simp add: at_head_def)

lemma loop_step_final:
  assumes "at_head s" and "\<not> retry_cond k (iter s)"
  shows "sysctl_loop (Suc fuel) k s = Some (loop_body k s)"
proof -
  from assms have "\<not> (err (loop_body k s) = 0 \<and> \<not> done_v (loop_body k s))"
    by (simp only: body_continues_iff not_False_eq_True)
  then show ?thesis
    by (simp only: sysctl_loop.simps Let_def if_False)
qed

lemma loop_step_retry:
  assumes "at_head s" and "retry_cond k (iter s)"
  shows "sysctl_loop (Suc fuel) k s =
         sysctl_loop fuel k
           (s\<lparr>err := 0, length_v := reply_len (fill_reply k (iter s)), iter := Suc (iter s)\<rparr>)"
proof -
  from assms have go: "err (loop_body k s) = 0 \<and> \<not> done_v (loop_body k s)"
    by (simp only: body_continues_iff)
  from assms have body: "loop_body k s = s\<lparr>err := 0, length_v := reply_len (fill_reply k (iter s))\<rparr>"
    by (rule body_retry)
  have "sysctl_loop (Suc fuel) k s =
        sysctl_loop fuel k ((loop_body k s)\<lparr>iter := Suc (iter (loop_body k s))\<rparr>)"
    using go by (simp add: Let_def)
  also have "(loop_body k s)\<lparr>iter := Suc (iter (loop_body k s))\<rparr> =
        s\<lparr>err := 0, length_v := reply_len (fill_reply k (iter s)), iter := Suc (iter s)\<rparr>"
    by (simp add: body)
  finally show ?thesis .
qed

lemma loop_runs:
  "at_head s \<Longrightarrow> \<forall>i. iter s \<le> i \<and> i < j \<longrightarrow> retry_cond k i \<Longrightarrow> \<not> retry_cond k j \<Longrightarrow>
   iter s \<le> j \<Longrightarrow> j < iter s + fuel \<Longrightarrow>
   sysctl_loop fuel k s = Some (loop_body k (s\<lparr>iter := j\<rparr>))"
proof (induction fuel arbitrary: s)
  case 0
  then show ?case by simp
next
  case (Suc fuel)
  show ?case
  proof (cases "iter s = j")
    case True
    then have "s\<lparr>iter := j\<rparr> = s" by simp
    moreover from True Suc.prems(3) have "\<not> retry_cond k (iter s)" by simp
    with Suc.prems(1) have "sysctl_loop (Suc fuel) k s = Some (loop_body k s)"
      by (rule loop_step_final)
    ultimately show ?thesis by simp
  next
    case False
    with Suc.prems have lt: "iter s < j" by simp
    with Suc.prems have rc: "retry_cond k (iter s)" by simp
    let ?n = "reply_len (fill_reply k (iter s))"
    let ?t = "s\<lparr>err := 0, length_v := ?n, iter := Suc (iter s)\<rparr>"
    have step: "sysctl_loop (Suc fuel) k s = sysctl_loop fuel k ?t"
      using Suc.prems(1) rc by (rule loop_step_retry)
    have "sysctl_loop fuel k ?t = Some (loop_body k (?t\<lparr>iter := j\<rparr>))"
    proof (rule Suc.IH)
      show "at_head ?t" using Suc.prems(1) by (rule head_after_retry)
      show "\<forall>i. iter ?t \<le> i \<and> i < j \<longrightarrow> retry_cond k i" using Suc.prems(2) by simp
      show "\<not> retry_cond k j" by (rule Suc.prems(3))
      show "iter ?t \<le> j" using lt by simp
      show "j < iter ?t + fuel" using Suc.prems(5) by simp
    qed
    moreover have "?t\<lparr>iter := j\<rparr> = (s\<lparr>iter := j\<rparr>)\<lparr>err := 0, length_v := ?n\<rparr>" by simp
    ultimately show ?thesis
      by (simp only: step body_ignores_err_length)
  qed
qed

lemma loop_returned:
  "sysctl_loop fuel k s = Some s' \<Longrightarrow> at_head s \<Longrightarrow>
   iter s \<le> iter s' \<and> iter s' < iter s + fuel \<and>
   (\<forall>i. iter s \<le> i \<and> i < iter s' \<longrightarrow> retry_cond k i) \<and> \<not> retry_cond k (iter s') \<and>
   s' = loop_body k (s\<lparr>iter := iter s'\<rparr>)"
proof (induction fuel arbitrary: s)
  case 0
  then show ?case by simp
next
  case (Suc fuel)
  show ?case
  proof (cases "retry_cond k (iter s)")
    case False
    with Suc.prems(2) have "sysctl_loop (Suc fuel) k s = Some (loop_body k s)"
      by (rule loop_step_final)
    with Suc.prems(1) have s': "s' = loop_body k s" by simp
    then have it: "iter s' = iter s" by (simp add: body_iter)
    then have "s\<lparr>iter := iter s'\<rparr> = s" by simp
    with False s' it show ?thesis by auto
  next
    case True
    let ?n = "reply_len (fill_reply k (iter s))"
    let ?t = "s\<lparr>err := 0, length_v := ?n, iter := Suc (iter s)\<rparr>"
    have "sysctl_loop (Suc fuel) k s = sysctl_loop fuel k ?t"
      using Suc.prems(2) True by (rule loop_step_retry)
    with Suc.prems(1) have run: "sysctl_loop fuel k ?t = Some s'"
      by simp
    have head: "at_head ?t" using Suc.prems(2) by (rule head_after_retry)
    from Suc.IH [OF run head]
    have a: "Suc (iter s) \<le> iter s'" and b: "iter s' < Suc (iter s) + fuel"
      and c: "\<forall>i. Suc (iter s) \<le> i \<and> i < iter s' \<longrightarrow> retry_cond k i"
      and d: "\<not> retry_cond k (iter s')"
      and e: "s' = loop_body k (?t\<lparr>iter := iter s'\<rparr>)"
      by simp_all
    have "?t\<lparr>iter := iter s'\<rparr> = (s\<lparr>iter := iter s'\<rparr>)\<lparr>err := 0, length_v := ?n\<rparr>" by simp
    with e have e': "s' = loop_body k (s\<lparr>iter := iter s'\<rparr>)"
      by (simp only: body_ignores_err_length)
    have c': "\<forall>i. iter s \<le> i \<and> i < iter s' \<longrightarrow> retry_cond k i"
    proof (intro allI impI)
      fix i assume "iter s \<le> i \<and> i < iter s'"
      then show "retry_cond k i" using c True by (cases "i = iter s") auto
    qed
    from a b c' d e' show ?thesis by simp
  qed
qed

lemma loop_spins:
  "at_head s \<Longrightarrow> \<forall>i. iter s \<le> i \<and> i < iter s + fuel \<longrightarrow> retry_cond k i \<Longrightarrow>
   sysctl_loop fuel k s = None"
proof (induction fuel arbitrary: s)
  case 0
  then show ?case by simp
next
  case (Suc fuel)
  let ?n = "reply_len (fill_reply k (iter s))"
  let ?t = "s\<lparr>err := 0, length_v := ?n, iter := Suc (iter s)\<rparr>"
  from Suc.prems have rc: "retry_cond k (iter s)" by simp
  have step: "sysctl_loop (Suc fuel) k s = sysctl_loop fuel k ?t"
    using Suc.prems(1) rc by (rule loop_step_retry)
  have "sysctl_loop fuel k ?t = None"
  proof (rule Suc.IH)
    show "at_head ?t" using Suc.prems(1) by (rule head_after_retry)
    show "\<forall>i. iter ?t \<le> i \<and> i < iter ?t + fuel \<longrightarrow> retry_cond k i"
      using Suc.prems(2) by simp
  qed
  then show ?case by (simp only: step)
qed

lemma head_entry: "at_head (entry_state\<lparr>iter := j\<rparr>)"
  by (simp add: at_head_def entry_state_def)

lemma epilogue_final:
  assumes h: "at_head s" and nr: "\<not> retry_cond k (iter s)"
  shows "epilogue recsz (loop_body k s) =
         \<lparr>ret = stop_code k (iter s),
          procList = (if stop_code k (iter s) = 0 then Some (iter s) else None),
          procCount = final_length k (iter s) div recsz,
          heap_after = (if stop_code k (iter s) = 0 then {iter s} else {}),
          last_iter = iter s\<rparr>"
proof -
  consider (size) "reply_err (size_reply k (iter s)) \<noteq> 0"
    | (malloc) "reply_err (size_reply k (iter s)) = 0" "\<not> malloc_ok k (iter s)"
    | (ok) "reply_err (size_reply k (iter s)) = 0" "malloc_ok k (iter s)"
        "reply_err (fill_reply k (iter s)) = 0"
    | (fill) "reply_err (size_reply k (iter s)) = 0" "malloc_ok k (iter s)"
        "reply_err (fill_reply k (iter s)) \<noteq> 0" "reply_err (fill_reply k (iter s)) \<noteq> ENOMEM"
    using nr by (auto simp add: retry_cond_def)
  then show ?thesis
  proof cases
    case size
    with h show ?thesis
      by (simp add: body_stop_size epilogue_def cleanup_def Let_def stop_code_def
          final_length_def at_head_def)
  next
    case malloc
    with h show ?thesis
      by (simp add: body_stop_malloc epilogue_def cleanup_def Let_def stop_code_def
          final_length_def at_head_def ENOMEM_def)
  next
    case ok
    with h show ?thesis
      by (simp add: body_stop_done epilogue_def cleanup_def Let_def stop_code_def
          final_length_def at_head_def)
  next
    case fill
    with h show ?thesis
      by (simp add: body_stop_fill epilogue_def cleanup_def Let_def stop_code_def
          final_length_def at_head_def free_block_def)
  qed
qed

lemma proc_list_returned:
  assumes "psutil_get_proc_list fuel k recsz = Some r"
  shows "last_iter r < fuel \<and> (\<forall>i<last_iter r. retry_cond k i) \<and> \<not> retry_cond k (last_iter r) \<and>
         r = \<lparr>ret = stop_code k (last_iter r),
              procList = (if stop_code k (last_iter r) = 0 then Some (last_iter r) else None),
              procCount = final_length k (last_iter r) div recsz,
              heap_after = (if stop_code k (last_iter r) = 0 then {last_iter r} else {}),
              last_iter = last_iter r\<rparr>"
proof -
  from assms obtain s' where run: "sysctl_loop fuel k entry_state = Some s'"
    and r: "r = epilogue recsz s'"
    by (auto simp add: psutil_get_proc_list_def)
  have h0: "at_head entry_state" by (simp add: at_head_def entry_state_def)
  have i0: "iter entry_state = 0" by (simp add: entry_state_def)
  from loop_returned [OF run h0]
  have a: "iter s' < fuel" and b: "\<forall>i. i < iter s' \<longrightarrow> retry_cond k i"
    and c: "\<not> retry_cond k (iter s')"
    and d: "s' = loop_body k (entry_state\<lparr>iter := iter s'\<rparr>)"
    by (simp_all add: i0)
  let ?j = "iter s'"
  have "epilogue recsz (loop_body k (entry_state\<lparr>iter := ?j\<rparr>)) =
         \<lparr>ret = stop_code k ?j,
          procList = (if stop_code k ?j = 0 then Some ?j else None),
          procCount = final_length k ?j div recsz,
          heap_after = (if stop_code k ?j = 0 then {?j} else {}),
          last_iter = ?j\<rparr>"
    using epilogue_final [of "entry_state\<lparr>iter := ?j\<rparr>" k recsz] c
    by (simp add: head_entry)
  with d r have r': "r = \<lparr>ret = stop_code k ?j,
          procList = (if stop_code k ?j = 0 then Some ?j else None),
          procCount = final_length k ?j div recsz,
          heap_after = (if stop_code k ?j = 0 then {?j} else {}),
          last_iter = ?j\<rparr>" by simp
  then have li: "last_iter r = ?j" by simp
  from a b c r' show ?thesis unfolding li by simp
qed

lemma proc_list_runs:
  assumes "\<forall>i<j. retry_cond k i" and "\<not> retry_cond k j" and "j < fuel"
  shows "psutil_get_proc_list fuel k recsz =
         Some \<lparr>ret = stop_code k j,
               procList = (if stop_code k j = 0 then Some j else None),
               procCount = final_length k j div recsz,
               heap_after = (if stop_code k j = 0 then {j} else {}),
               last_iter = j\<rparr>"
proof -
  have h0: "at_head entry_state" by (simp add: at_head_def entry_state_def)
  have "sysctl_loop fuel k entry_state = Some (loop_body k (entry_state\<lparr>iter := j\<rparr>))"
    using h0 assms by (intro loop_runs) (simp_all add: entry_state_def)
  then show ?thesis
    using epilogue_final [of "entry_state\<lparr>iter := j\<rparr>" k recsz] assms(2)
    by (simp add: psutil_get_proc_list_def head_entry)
qed

lemma proc_list_spins:
  assumes "\<forall>i<fuel. retry_cond k i"
  shows "psutil_get_proc_list fuel k recsz = None"
proof -
  have h0: "at_head entry_state" by (simp add: at_head_def entry_state_def)
  have "sysctl_loop fuel k entry_state = None"
    using h0 assms by (intro loop_spins) (simp_all add: entry_state_def)
  then show ?thesis by (simp add: psutil_get_proc_list_def)
qed

lemma retry_cond_requery:
  "errno_set (size_reply k i) \<Longrightarrow> retry_cond k i \<longleftrightarrow> requery_enomem k i"
  by (auto simp add: retry_cond_def requery_enomem_def errno_set_def reply_err_def ENOMEM_def
      split: sysctl_reply.splits)

lemmas run_simps = psutil_get_proc_list_def epilogue_def cleanup_def loop_body_def Let_def
  entry_state_def reply_err_def reply_len_def free_block_def ENOMEM_def EPERM_def
  numeral_2_eq_2 numeral_3_eq_3

lemma grown_run:
  "psutil_get_proc_list 3 grown_kernel 1088 =
   Some \<lparr>ret = 0, procList = Some 1, procCount = 3, heap_after = {1}, last_iter = 1\<rparr>"
  by (simp add: run_simps grown_kernel_def)

lemma fatal_run:
  "psutil_get_proc_list 2 fatal_kernel 1088 =
   Some \<lparr>ret = EPERM, procList = None, procCount = 0, heap_after = {}, last_iter = 1\<rparr>"
  by (simp add: run_simps fatal_kernel_def)

lemma shrunk_run:
  "psutil_get_proc_list 1 shrunk_kernel 1088 =
   Some \<lparr>ret = 0, procList = Some 0, procCount = 2, heap_after = {0}, last_iter = 0\<rparr>"
  by (simp add: run_simps shrunk_kernel_def)

lemma corrupt_run:
  "psutil_get_proc_list 1 corrupt_kernel 1088 =
   Some \<lparr>ret = 0, procList = Some 0, procCount = 2, heap_after = {0}, last_iter = 0\<rparr>"
  by (simp add: run_simps corrupt_kernel_def)

text \<open>
  Claim C4. Whenever the function returns, it returns 0 exactly when \<open>*procList\<close> is not
  NULL (the source's final assertion). When it returns an error, whichever of the first
  query, \<open>malloc\<close> or the query with the block failed, no block is left allocated and
  none is returned; when it returns a block, that block is the only one left allocated.
  And an iteration that starts with nothing allocated and makes the loop go round again
  ends with \<open>result\<close> NULL and nothing allocated (the assertion at the head of the loop).
\<close>

theorem buffer_returned_iff_success:
  assumes run: "psutil_get_proc_list fuel k recsz = Some r"
  shows "(ret r = 0 \<longleftrightarrow> procList r \<noteq> None) \<and>
         (ret r \<noteq> 0 \<longrightarrow> heap_after r = {}) \<and>
         (\<forall>b. procList r = Some b \<longrightarrow> heap_after r = {b}) \<and>
         (\<forall>s. at_head s \<and> err (loop_body k s) = 0 \<and> \<not> done_v (loop_body k s) \<longrightarrow>
              result (loop_body k s) = None \<and> heap (loop_body k s) = {})"
proof -
  let ?j = "last_iter r"
  from proc_list_returned [OF run]
  have r: "r = \<lparr>ret = stop_code k ?j,
              procList = (if stop_code k ?j = 0 then Some ?j else None),
              procCount = final_length k ?j div recsz,
              heap_after = (if stop_code k ?j = 0 then {?j} else {}),
              last_iter = ?j\<rparr>" by simp
  have a: "ret r = 0 \<longleftrightarrow> procList r \<noteq> None" by (subst r, subst (2) r) simp
  have b: "ret r \<noteq> 0 \<longrightarrow> heap_after r = {}" by (subst r, subst (2) r) simp
  have c: "\<forall>b. procList r = Some b \<longrightarrow> heap_after r = {b}"
    by (subst r, subst (2) r) simp
  have d: "\<forall>s. at_head s \<and> err (loop_body k s) = 0 \<and> \<not> done_v (loop_body k s) \<longrightarrow>
              result (loop_body k s) = None \<and> heap (loop_body k s) = {}"
  proof (intro allI impI)
    fix s assume h: "at_head s \<and> err (loop_body k s) = 0 \<and> \<not> done_v (loop_body k s)"
    then have "retry_cond k (iter s)" using body_continues_iff [of s k] by simp
    with h have "loop_body k s = s\<lparr>err := 0, length_v := reply_len (fill_reply k (iter s))\<rparr>"
      by (simp add: body_retry)
    with h show "result (loop_body k s) = None \<and> heap (loop_body k s) = {}"
      by (simp add: at_head_def)
  qed
  from a b c d show ?thesis by simp
qed

theorem buffer_returned_iff_success_witness:
  "psutil_get_proc_list 2 fatal_kernel 1088 =
     Some \<lparr>ret = EPERM, procList = None, procCount = 0, heap_after = {}, last_iter = 1\<rparr> \<and>
   psutil_get_proc_list 3 grown_kernel 1088 =
     Some \<lparr>ret = 0, procList = Some 1, procCount = 3, heap_after = {1}, last_iter = 1\<rparr> \<and>
   EPERM \<noteq> 0"
  using buffer_returned_iff_success [OF fatal_run] buffer_returned_iff_success [OF grown_run]
    fatal_run grown_run
  by (simp add: EPERM_def)

text \<open>
  Claim C5. Take a kernel whose failed size queries leave a non-zero error number. When
  the function returns, every iteration before the last one was one in which the query
  with the allocated block failed with ENOMEM, and the last one was not: that is the one
  condition the loop goes round on, and it does so whenever it meets it. The value
  returned is the raw code of the last iteration: the error number of the query that
  failed (or 0, or ENOMEM when \<open>malloc\<close> failed); so ENOMEM reaches the caller only from
  the size query or from \<open>malloc\<close>, never from the query with the block. An iteration
  that retries leaves the state as it found it but for \<open>length\<close>, with \<open>err\<close> 0 and the
  block released, and the next iteration starts again at the size query.
\<close>

theorem retry_only_on_requery_enomem:
  assumes run: "psutil_get_proc_list fuel k recsz = Some r"
    and wf: "\<forall>i. errno_set (size_reply k i)"
  shows "(\<forall>i<last_iter r. requery_enomem k i) \<and> \<not> requery_enomem k (last_iter r) \<and>
         ret r = stop_code k (last_iter r) \<and>
         (ret r = ENOMEM \<longrightarrow>
            reply_err (size_reply k (last_iter r)) = ENOMEM \<or> \<not> malloc_ok k (last_iter r)) \<and>
         (\<forall>s. at_head s \<longrightarrow>
            ((err (loop_body k s) = 0 \<and> \<not> done_v (loop_body k s)) \<longleftrightarrow> requery_enomem k (iter s))) \<and>
         (\<forall>s. at_head s \<and> requery_enomem k (iter s) \<longrightarrow>
            loop_body k s = s\<lparr>err := 0, length_v := reply_len (fill_reply k (iter s))\<rparr>)"
proof -
  let ?j = "last_iter r"
  have eq: "\<And>i. retry_cond k i \<longleftrightarrow> requery_enomem k i"
    using wf by (simp add: retry_cond_requery)
  from proc_list_returned [OF run]
  have a: "\<forall>i<?j. retry_cond k i" and b: "\<not> retry_cond k ?j"
    and r: "r = \<lparr>ret = stop_code k ?j,
              procList = (if stop_code k ?j = 0 then Some ?j else None),
              procCount = final_length k ?j div recsz,
              heap_after = (if stop_code k ?j = 0 then {?j} else {}),
              last_iter = ?j\<rparr>" by simp_all
  have c: "ret r = stop_code k ?j" by (subst r) simp
  have d: "ret r = ENOMEM \<longrightarrow> reply_err (size_reply k ?j) = ENOMEM \<or> \<not> malloc_ok k ?j"
    using b unfolding c by (auto simp add: stop_code_def retry_cond_def)
  have e: "\<forall>s. at_head s \<longrightarrow>
            ((err (loop_body k s) = 0 \<and> \<not> done_v (loop_body k s)) \<longleftrightarrow> requery_enomem k (iter s))"
    by (simp add: body_continues_iff eq)
  have f: "\<forall>s. at_head s \<and> requery_enomem k (iter s) \<longrightarrow>
            loop_body k s = s\<lparr>err := 0, length_v := reply_len (fill_reply k (iter s))\<rparr>"
    by (simp add: body_retry eq)
  from a b c d e f show ?thesis by (simp add: eq)
qed

theorem retry_only_on_requery_enomem_witness:
  "psutil_get_proc_list 3 grown_kernel 1088 =
     Some \<lparr>ret = 0, procList = Some 1, procCount = 3, heap_after = {1}, last_iter = 1\<rparr> \<and>
   (\<forall>i. errno_set (size_reply grown_kernel i)) \<and>
   requery_enomem grown_kernel 0 \<and> \<not> requery_enomem grown_kernel 1 \<and>
   stop_code grown_kernel 1 = 0 \<and>
   psutil_get_proc_list 2 fatal_kernel 1088 =
     Some \<lparr>ret = EPERM, procList = None, procCount = 0, heap_after = {}, last_iter = 1\<rparr> \<and>
   (\<forall>i. errno_set (size_reply fatal_kernel i)) \<and>
   requery_enomem fatal_kernel 0 \<and> \<not> requery_enomem fatal_kernel 1 \<and>
   stop_code fatal_kernel 1 = EPERM"
proof -
  have wf: "\<forall>i. errno_set (size_reply grown_kernel i)"
    by (simp add: grown_kernel_def errno_set_def)
  have wf': "\<forall>i. errno_set (size_reply fatal_kernel i)"
    by (simp add: fatal_kernel_def errno_set_def)
  from retry_only_on_requery_enomem [OF grown_run wf]
  have g: "requery_enomem grown_kernel 0 \<and> \<not> requery_enomem grown_kernel 1 \<and>
           stop_code grown_kernel 1 = 0" by simp
  from retry_only_on_requery_enomem [OF fatal_run wf']
  have f: "requery_enomem fatal_kernel 0 \<and> \<not> requery_enomem fatal_kernel 1 \<and>
           stop_code fatal_kernel 1 = EPERM" by simp
  from g f grown_run fatal_run wf wf' show ?thesis by simp
qed

text \<open>
  Claim C6. When the function returns 0, the last iteration's two queries both succeeded
  and \<open>*procCount\<close> is the quotient of the length that the query with the block left (the
  bytes written), not of the length \<open>L\<close> that the size query had announced.
\<close>

theorem count_from_bytes_written:
  assumes run: "psutil_get_proc_list fuel k recsz = Some r" and ok: "ret r = 0"
  shows "reply_err (size_reply k (last_iter r)) = 0 \<and> malloc_ok k (last_iter r) \<and>
         reply_err (fill_reply k (last_iter r)) = 0 \<and>
         procCount r = reply_len (fill_reply k (last_iter r)) div recsz"
proof -
  let ?j = "last_iter r"
  from proc_list_returned [OF run]
  have r: "r = \<lparr>ret = stop_code k ?j,
              procList = (if stop_code k ?j = 0 then Some ?j else None),
              procCount = final_length k ?j div recsz,
              heap_after = (if stop_code k ?j = 0 then {?j} else {}),
              last_iter = ?j\<rparr>" by simp
  have "ret r = stop_code k ?j" by (subst r) simp
  with ok have z: "stop_code k ?j = 0" by simp
  then have s: "reply_err (size_reply k ?j) = 0" and m: "malloc_ok k ?j"
    and f: "reply_err (fill_reply k ?j) = 0"
    by (auto simp add: stop_code_def ENOMEM_def split: if_splits)
  have "procCount r = final_length k ?j div recsz" by (subst r) simp
  with s m f show ?thesis by (simp add: final_length_def)
qed

theorem count_from_bytes_written_witness:
  "psutil_get_proc_list 1 shrunk_kernel 1088 =
     Some \<lparr>ret = 0, procList = Some 0, procCount = 2, heap_after = {0}, last_iter = 0\<rparr> \<and>
   size_reply shrunk_kernel 0 = Sysctl_ok 3264 \<and> fill_reply shrunk_kernel 0 = Sysctl_ok 2176 \<and>
   (2::nat) = 2176 div 1088 \<and> (2::nat) \<noteq> 3264 div 1088"
  using count_from_bytes_written [OF shrunk_run] shrunk_run
  by (simp add: shrunk_kernel_def)

text \<open>
  Claim C3, as stated: on success the record count times the record size equals the
  byte count the kernel reported, and a remainder is a fatal violation. The code divides
  and drops the remainder without a check: with records of 1088 bytes and a kernel that
  reports 2177 bytes, the call succeeds with a count of 2, and 2 * 1088 is not 2177.
\<close>

theorem count_invariant_counterexample:
  "psutil_get_proc_list 1 corrupt_kernel 1088 =
     Some \<lparr>ret = 0, procList = Some 0, procCount = 2, heap_after = {0}, last_iter = 0\<rparr> \<and>
   fill_reply corrupt_kernel 0 = Sysctl_ok 2177 \<and> (2::nat) * 1088 \<noteq> 2177"
  using corrupt_run by (simp add: corrupt_kernel_def)

text \<open>
  Claim C3, amended. On success the record count is the quotient, rounded down, of the
  byte count by the record size: count times size is the byte count less its remainder,
  so the two are equal exactly when the byte count is a multiple of the record size.
\<close>

theorem count_is_floor_quotient:
  assumes run: "psutil_get_proc_list fuel k recsz = Some r" and ok: "ret r = 0"
  shows "procCount r * recsz =
           reply_len (fill_reply k (last_iter r)) - reply_len (fill_reply k (last_iter r)) mod recsz \<and>
         (procCount r * recsz = reply_len (fill_reply k (last_iter r)) \<longleftrightarrow>
            reply_len (fill_reply k (last_iter r)) mod recsz = 0)"
proof -
  let ?j = "last_iter r"
  let ?n = "reply_len (fill_reply k ?j)"
  from proc_list_returned [OF run]
  have r: "r = \<lparr>ret = stop_code k ?j,
              procList = (if stop_code k ?j = 0 then Some ?j else None),
              procCount = final_length k ?j div recsz,
              heap_after = (if stop_code k ?j = 0 then {?j} else {}),
              last_iter = ?j\<rparr>" by simp
  have "ret r = stop_code k ?j" by (subst r) simp
  with ok have "stop_code k ?j = 0" by simp
  then have "final_length k ?j = ?n"
    by (auto simp add: stop_code_def final_length_def ENOMEM_def split: if_splits)
  moreover have "procCount r = final_length k ?j div recsz" by (subst r) simp
  ultimately have c: "procCount r = ?n div recsz" by simp
  have m: "?n div recsz * recsz = ?n - ?n mod recsz"
    by (simp add: minus_mod_eq_div_mult)
  have "?n mod recsz \<le> ?n" by (rule mod_less_eq_dividend)
  then have "(?n - ?n mod recsz = ?n) \<longleftrightarrow> ?n mod recsz = 0" by arith
  with m c show ?thesis by simp
qed

theorem count_is_floor_quotient_witness:
  "psutil_get_proc_list 1 corrupt_kernel 1088 =
     Some \<lparr>ret = 0, procList = Some 0, procCount = 2, heap_after = {0}, last_iter = 0\<rparr> \<and>
   (2::nat) * 1088 = 2177 - 2177 mod 1088 \<and> (2177::nat) mod 1088 \<noteq> 0"
  using count_is_floor_quotient [OF corrupt_run] corrupt_run
  by simp

subsection \<open>Argument fetcher and decoder\<close>

lemma c_string_terminated: "NUL \<notin> set s \<Longrightarrow> c_string (s @ NUL # t) = Some s"
  by (induction s) auto

lemma c_string_Some:
  "c_string xs = Some s \<Longrightarrow>
   length s < length xs \<and> xs ! length s = NUL \<and> s = take (length s) xs \<and> NUL \<notin> set s"
proof (induction xs arbitrary: s)
  case Nil
  then show ?case by simp
next
  case (Cons c cs)
  show ?case
  proof (cases "c = NUL")
    case True
    with Cons.prems show ?thesis by simp
  next
    case False
    with Cons.prems obtain s' where s': "c_string cs = Some s'" and s: "s = c # s'"
      by auto
    from Cons.IH [OF s'] s False show ?thesis by simp
  qed
qed


lemma scan_step:
  "pos < asize \<Longrightarrow> c_string (drop pos mem) = Some s \<Longrightarrow> build_ok h s \<Longrightarrow> append_ok h acc s \<Longrightarrow>
   scan h mem asize pos acc rd =
   scan h mem asize (pos + length s + 1) (acc @ [s]) (rd @ [pos ..< pos + length s + 1])"
  by (subst scan.simps) simp

lemma scan_fault:
  "pos < asize \<Longrightarrow> c_string (drop pos mem) = None \<Longrightarrow>
   scan h mem asize pos acc rd = (Scan_fault, rd @ [pos ..< Suc (length mem)])"
  by (subst scan.simps) simp

lemma length_encode_Cons:
  "length (encode_blob (s # S)) = length s + 1 + length (encode_blob S)"
  by (simp add: encode_blob_def)

lemma encode_blob_Cons: "encode_blob (s # S) = s @ NUL # encode_blob S"
  by (simp add: encode_blob_def)


lemma c_string_append:
  "NUL \<notin> set t \<Longrightarrow>
   c_string (t @ xs) = (case c_string xs of None \<Rightarrow> None | Some u \<Rightarrow> Some (t @ u))"
  by (induction t) (auto split: option.splits)

lemma scan_position_in_block:
  "c_string (drop pos mem) = Some s \<Longrightarrow> pos + length s + 1 \<le> length mem"
proof -
  assume "c_string (drop pos mem) = Some s"
  from c_string_Some [OF this] have "length s < length (drop pos mem)" by blast
  then show ?thesis by simp
qed

lemma scan_encoded_prefix:
  assumes "\<forall>s\<in>set S. NUL \<notin> set s"
    and "\<forall>s\<in>set S. build_ok h s"
    and "\<forall>l. \<forall>s\<in>set S. append_ok h l s"
    and "length pre + length (encode_blob S) \<le> asize"
  shows "scan h (pre @ encode_blob S @ rest) asize (length pre) acc rd =
         scan h (pre @ encode_blob S @ rest) asize (length pre + length (encode_blob S))
           (acc @ S) (rd @ [length pre ..< length pre + length (encode_blob S)])"
  using assms
proof (induction S arbitrary: pre acc rd)
  case Nil
  then show ?case by (simp add: encode_blob_def)
next
  case (Cons s S)
  define mem where "mem = pre @ encode_blob (s # S) @ rest"
  define pre' where "pre' = pre @ s @ [NUL]"
  define p where "p = length pre"
  define q where "q = length pre'"
  define n where "n = length (encode_blob S)"
  from Cons.prems have nn: "NUL \<notin> set s" and b: "build_ok h s" and a: "append_ok h acc s"
    by simp_all
  have q: "q = p + length s + 1" by (simp add: q_def p_def pre'_def)
  have sz: "p + length (encode_blob (s # S)) = q + n"
    by (simp add: q n_def length_encode_Cons)
  from Cons.prems(4) have le: "q + n \<le> asize" by (simp only: p_def [symmetric] sz)
  then have lt: "p < asize" by (simp add: q)
  have "drop p mem = s @ NUL # (encode_blob S @ rest)"
    by (simp add: mem_def p_def encode_blob_Cons)
  with nn have cs: "c_string (drop p mem) = Some s"
    by (simp add: c_string_terminated)
  have mem: "mem = pre' @ encode_blob S @ rest"
    by (simp add: mem_def pre'_def encode_blob_Cons)
  have "scan h mem asize p acc rd =
        scan h mem asize (p + length s + 1) (acc @ [s]) (rd @ [p ..< p + length s + 1])"
    using lt cs b a by (rule scan_step)
  also have "\<dots> = scan h (pre' @ encode_blob S @ rest) asize (length pre') (acc @ [s]) (rd @ [p ..< q])"
    by (simp only: mem q q_def [symmetric])
  also have "\<dots> = scan h (pre' @ encode_blob S @ rest) asize (length pre' + length (encode_blob S))
          ((acc @ [s]) @ S) ((rd @ [p ..< q]) @ [length pre' ..< length pre' + length (encode_blob S)])"
    using Cons.prems le by (intro Cons.IH) (simp_all add: q_def n_def)
  also have "\<dots> = scan h mem asize (q + n) (acc @ s # S) (rd @ [p ..< q] @ [q ..< q + n])"
    by (simp add: q_def n_def mem)
  also have "[p ..< q] @ [q ..< q + n] = [p ..< q + n]"
  proof -
    have "p \<le> q" by (simp add: q)
    then show ?thesis by (rule upt_add_eq_append [symmetric])
  qed
  finally have "scan h mem asize p acc rd = scan h mem asize (q + n) (acc @ s # S) (rd @ [p ..< q + n])" .
  then show ?case
    by (simp only: mem_def p_def sz [symmetric, unfolded p_def])
qed









text \<open>
  When the block holds no null byte after the blob either, the read leaves the block.
\<close>

lemma unterminated_final_segment_fault:
  assumes "\<forall>s\<in>set S. NUL \<notin> set s"
    and "\<forall>s\<in>set S. build_ok h s"
    and "\<forall>l. \<forall>s\<in>set S. append_ok h l s"
    and t: "t \<noteq> []" "NUL \<notin> set t"
    and u: "c_string rest = None"
  shows "fst (decode_args h (encode_blob S @ t @ rest) (length (encode_blob S) + length t)) = Scan_fault"
proof -
  let ?n = "length (encode_blob S)"
  let ?mem = "encode_blob S @ t @ rest"
  let ?asize = "?n + length t"
  have pos: "0 < ?asize" using t by simp
  have "scan h ?mem ?asize 0 [] [] = scan h ?mem ?asize ?n S [0 ..< ?n]"
    using scan_encoded_prefix [of S h "[]" ?asize "t @ rest" "[]" "[]"] assms(1-3) by simp
  also have "\<dots> = (Scan_fault, [0 ..< ?n] @ [?n ..< Suc (length ?mem)])"
  proof (rule scan_fault)
    show "?n < ?asize" using t by simp
    show "c_string (drop ?n ?mem) = None" using t u by (simp add: c_string_append)
  qed
  finally show ?thesis using pos by (simp add: decode_args_def)
qed

lemma cmdline_fetched:
  assumes "0 \<le> pid" and "argmax_reply k = Argmax_ok am" and "procargs_malloc_ok k"
    and "args_reply k (c_int pid) = Args_ok mem n"
  shows "psutil_get_cmdline k h pid =
         (case decode_args h mem n of
            (Scan_done l, rd) \<Rightarrow>
              \<lparr>cl_value = Py_list l,
               cl_events = [Ev_sysctl_argmax, Ev_malloc am, Ev_sysctl_args (c_int pid), Ev_free],
               cl_reads = rd\<rparr>
          | (Scan_error, rd) \<Rightarrow>
              \<lparr>cl_value = Py_NULL,
               cl_events = [Ev_sysctl_argmax, Ev_malloc am, Ev_sysctl_args (c_int pid), Ev_free],
               cl_reads = rd\<rparr>
          | (Scan_fault, rd) \<Rightarrow>
              \<lparr>cl_value = Undefined_behaviour,
               cl_events = [Ev_sysctl_argmax, Ev_malloc am, Ev_sysctl_args (c_int pid)],
               cl_reads = rd\<rparr>)"
  using assms
  by (simp add: psutil_get_cmdline_def psutil_get_cmd_args_def Let_def
      split: prod.splits scan_outcome.splits)

text \<open>
  Claim C8. With a logical length of 0 the decoder returns the empty list and reads
  nothing; the function, for a pid that is not negative and a fetch that succeeds with
  length 0, frees the block and returns the empty list, not NULL.
\<close>

theorem empty_blob_empty_list:
  assumes "0 \<le> pid" and "argmax_reply k = Argmax_ok am" and "procargs_malloc_ok k"
    and "args_reply k (c_int pid) = Args_ok mem 0"
  shows "decode_args h mem 0 = (Scan_done [], []) \<and>
         psutil_get_cmdline k h pid =
           \<lparr>cl_value = Py_list [],
            cl_events = [Ev_sysctl_argmax, Ev_malloc am, Ev_sysctl_args (c_int pid), Ev_free],
            cl_reads = []\<rparr>"
proof -
  have d: "decode_args h mem 0 = (Scan_done [], [])" by (simp add: decode_args_def)
  from cmdline_fetched [OF assms, of h] d show ?thesis by simp
qed

theorem empty_blob_empty_list_witness:
  "(0::int) \<le> 7 \<and> argmax_reply (args_of ''junk'' 0) = Argmax_ok 262144 \<and>
   procargs_malloc_ok (args_of ''junk'' 0) \<and>
   args_reply (args_of ''junk'' 0) (c_int 7) = Args_ok ''junk'' 0 \<and>
   decode_args ok_host ''junk'' 0 = (Scan_done [], []) \<and>
   psutil_get_cmdline (args_of ''junk'' 0) ok_host 7 =
     \<lparr>cl_value = Py_list [],
      cl_events = [Ev_sysctl_argmax, Ev_malloc 262144, Ev_sysctl_args 7, Ev_free],
      cl_reads = []\<rparr>"
  using empty_blob_empty_list [of 7 "args_of ''junk'' 0" 262144 "''junk''" ok_host]
  by (simp add: args_of_def c_int_def)

text \<open>
  Claim C10. For a negative pid the function returns the empty list at once: no kernel
  query, no allocation, no byte read, and no error.
\<close>

theorem negative_pid_empty_list:
  "pid < 0 \<Longrightarrow> psutil_get_cmdline k h pid = \<lparr>cl_value = Py_list [], cl_events = [], cl_reads = []\<rparr>"
  by (simp add: psutil_get_cmdline_def)

theorem negative_pid_empty_list_witness:
  "(- 1::int) < 0 \<and>
   psutil_get_cmdline (args_denied ESRCH) ok_host (- 1) =
     \<lparr>cl_value = Py_list [], cl_events = [], cl_reads = []\<rparr> \<and>
   cl_value (psutil_get_cmdline (args_denied ESRCH) ok_host 1) = Py_NULL"
  using negative_pid_empty_list [of "- 1" "args_denied ESRCH" ok_host]
  by (simp add: psutil_get_cmdline_def psutil_get_cmd_args_def args_denied_def c_int_def)

text \<open>
  Claim C9. When the query for the arguments of the process fails, whatever the error
  number, the fetcher returns NULL, leaves \<open>*argsize\<close> alone and raises nothing; the
  block is freed after the failed query and before the return, so no block is left
  allocated. \<open>psutil_get_cmdline\<close> passes the failure on as NULL. The result does not
  mention the error number.
\<close>

theorem args_query_failure_generic:
  assumes "argmax_reply k = Argmax_ok am" and "procargs_malloc_ok k"
    and "args_reply k (c_int pid) = Args_fail e"
  shows "psutil_get_cmd_args k pid a0 =
           \<lparr>procargs = None, argsize = a0,
            ca_events = [Ev_sysctl_argmax, Ev_malloc am, Ev_sysctl_args (c_int pid), Ev_free],
            ca_nomem = False\<rparr> \<and>
         blocks_live (ca_events (psutil_get_cmd_args k pid a0)) = 0 \<and>
         (0 \<le> pid \<longrightarrow> cl_value (psutil_get_cmdline k h pid) = Py_NULL)"
  using assms
  by (simp add: psutil_get_cmd_args_def psutil_get_cmdline_def blocks_live_def Let_def)

theorem args_query_failure_generic_witness:
  "psutil_get_cmd_args (args_denied EPERM) 7 0 =
     \<lparr>procargs = None, argsize = 0,
      ca_events = [Ev_sysctl_argmax, Ev_malloc 262144, Ev_sysctl_args 7, Ev_free],
      ca_nomem = False\<rparr> \<and>
   psutil_get_cmd_args (args_denied ESRCH) 7 0 = psutil_get_cmd_args (args_denied EPERM) 7 0 \<and>
   args_reply (args_denied EPERM) (c_int 7) = Args_fail EPERM \<and>
   args_reply (args_denied ESRCH) (c_int 7) = Args_fail ESRCH \<and>
   cl_value (psutil_get_cmdline (args_denied EPERM) ok_host 7) = Py_NULL"
  using args_query_failure_generic [of "args_denied EPERM" 262144 7 EPERM 0 ok_host]
    args_query_failure_generic [of "args_denied ESRCH" 262144 7 ESRCH 0 ok_host]
  by (simp add: args_denied_def c_int_def)

end
